theory Spec2Isabelle
  imports Main
begin

section \<open>Python built-ins used by \<^verbatim>\<open>src/utils/request_utils.py\<close>\<close>

text \<open>
  Header values reach the code as Python \<^verbatim>\<open>str\<close>. Starlette decodes every header as
  latin-1, so each character of a header value is one code point below 256: a \<^typ>\<open>char\<close>.
  A string is a \<^typ>\<open>string\<close>, the empty string is the only falsy one. The values of
  the mapping given to \<^verbatim>\<open>extract_ip_from_headers\<close> are strings of the same kind.
\<close>

datatype py_error = IndexError

text \<open>
  \<^verbatim>\<open>str.isspace\<close> on the code points below 256: TAB, LF, VT, FF, CR (9-13), the
  separators FS, GS, RS, US (28-31), the space (32), NEL (133) and NBSP (160).
\<close>

definition str_isspace :: "char \<Rightarrow> bool" where
  "str_isspace c =
     (let n = (of_char c :: nat)
      in (9 \<le> n \<and> n \<le> 13) \<or> (28 \<le> n \<and> n \<le> 32) \<or> n = 133 \<or> n = 160)"

text \<open>\<^verbatim>\<open>s.strip()\<close>: the leading and the trailing whitespace are removed.\<close>

definition str_strip :: "string \<Rightarrow> string" where
  "str_strip s = rev (dropWhile str_isspace (rev (dropWhile str_isspace s)))"

text \<open>
  \<^verbatim>\<open>s.split(sep)\<close> for a separator of one character: every occurrence of the
  separator ends a piece, so a string with \<open>k\<close> separators gives \<open>k + 1\<close> pieces and
  the empty string gives one empty piece.
\<close>

fun str_split :: "char \<Rightarrow> string \<Rightarrow> string list" where
  "str_split sep [] = [[]]"
| "str_split sep (c # cs) =
     (if c = sep then [] # str_split sep cs
      else (case str_split sep cs of
              [] \<Rightarrow> [[c]]
            | p # ps \<Rightarrow> (c # p) # ps))"

text \<open>
  \<^verbatim>\<open>xs[i]\<close>: a negative index counts from the end, an index out of range raises
  \<^verbatim>\<open>IndexError\<close>.
\<close>

definition list_getitem :: "'a list \<Rightarrow> int \<Rightarrow> py_error + 'a" where
  "list_getitem xs i =
     (if 0 \<le> i
      then (if i < int (length xs) then Inr (xs ! nat i) else Inl IndexError)
      else (if - i \<le> int (length xs) then Inr (xs ! nat (int (length xs) + i))
            else Inl IndexError))"

text \<open>\<^verbatim>\<open>d.get(key, default)\<close> on a \<^verbatim>\<open>dict\<close>: the lookup compares keys exactly.\<close>

definition dict_get :: "(string \<rightharpoonup> string) \<Rightarrow> string \<Rightarrow> string \<Rightarrow> string" where
  "dict_get d key dflt = (case d key of None \<Rightarrow> dflt | Some v \<Rightarrow> v)"

section \<open>The request object and the configuration\<close>

text \<open>
  \<^verbatim>\<open>request.client\<close> is \<^verbatim>\<open>None\<close> or an \<^verbatim>\<open>Address(host, port)\<close>;
  \<^verbatim>\<open>request.headers\<close> is Starlette's \<^verbatim>\<open>Headers\<close> over the ASGI header list, whose
  names the server has lowercased. \<^verbatim>\<open>Headers.get(key)\<close> lowercases \<open>key\<close> and
  returns the value of the first entry of that name, \<^verbatim>\<open>None\<close> when there is none.
  The keys looked up here are ASCII literals, so lowercasing is the ASCII one.
\<close>

record address =
  host :: string
  port :: int

record request =
  client :: "address option"
  headers :: "(string \<times> string) list"

definition ascii_lower :: "char \<Rightarrow> char" where
  "ascii_lower c =
     (let n = (of_char c :: nat)
      in if 65 \<le> n \<and> n \<le> 90 then char_of (n + 32) else c)"

definition headers_get :: "(string \<times> string) list \<Rightarrow> string \<Rightarrow> string option" where
  "headers_get hs key = map_of hs (map ascii_lower key)"

text \<open>
  \<^verbatim>\<open>src.config\<close> is not among the sources; the functions read one field of it, the
  trust depth \<^verbatim>\<open>config.trusted_proxy_count\<close>, taken here as a parameter.
\<close>

record config =
  trusted_proxy_count :: int

section \<open>\<^verbatim>\<open>get_client_ip\<close> and \<^verbatim>\<open>extract_ip_from_headers\<close>\<close>

text \<open>
  The list comprehension of lines 46 and 133,
  \<^verbatim>\<open>[ip.strip() for ip in forwarded_for.split(",") if ip.strip()]\<close>.
\<close>

definition parse_forwarded_for :: "string \<Rightarrow> string list" where
  "parse_forwarded_for forwarded_for =
     map str_strip (filter (\<lambda>ip. str_strip ip \<noteq> []) (str_split CHR '','' forwarded_for))"

text \<open>
  Lines 37-39 and again 58-61:
  \<^verbatim>\<open>if request.client and request.client.host: return request.client.host\<close>,
  then \<^verbatim>\<open>return "unknown"\<close>.
\<close>

definition client_host_or_unknown :: "request \<Rightarrow> string" where
  "client_host_or_unknown request =
     (case client request of
        None \<Rightarrow> ''unknown''
      | Some a \<Rightarrow> if host a \<noteq> [] then host a else ''unknown'')"

text \<open>
  Lines 52-61 of \<^verbatim>\<open>get_client_ip\<close>, reached when the \<^verbatim>\<open>X-Forwarded-For\<close> block
  returns nothing.
\<close>

definition get_client_ip_fallback :: "request \<Rightarrow> py_error + string" where
  "get_client_ip_fallback request =
     (case headers_get (headers request) ''X-Real-IP'' of
        None \<Rightarrow> Inr (client_host_or_unknown request)
      | Some real_ip \<Rightarrow>
          if real_ip \<noteq> [] then Inr (str_strip real_ip)
          else Inr (client_host_or_unknown request))"

definition get_client_ip :: "config \<Rightarrow> request \<Rightarrow> py_error + string" where
  "get_client_ip cfg request =
     (let tpc = trusted_proxy_count cfg
      in if tpc = 0 then Inr (client_host_or_unknown request)
         else (case headers_get (headers request) ''X-Forwarded-For'' of
                 None \<Rightarrow> get_client_ip_fallback request
               | Some forwarded_for \<Rightarrow>
                   if forwarded_for \<noteq> []
                   then (let ips = parse_forwarded_for forwarded_for
                         in if int (length ips) > tpc then list_getitem ips (- (tpc + 1))
                            else if ips \<noteq> [] then list_getitem ips 0
                            else get_client_ip_fallback request)
                   else get_client_ip_fallback request))"

text \<open>
  Lines 139-144 of \<^verbatim>\<open>extract_ip_from_headers\<close>, reached when the
  \<^verbatim>\<open>x-forwarded-for\<close> block returns nothing.
\<close>

definition extract_ip_fallback :: "(string \<rightharpoonup> string) \<Rightarrow> py_error + string" where
  "extract_ip_fallback hdrs =
     (let real_ip = dict_get hdrs ''x-real-ip'' ''''
      in if real_ip \<noteq> [] then Inr (str_strip real_ip) else Inr ''unknown'')"

text \<open>
  The second argument is \<^verbatim>\<open>Optional[int]\<close>: \<^verbatim>\<open>None\<close> takes the configured value.
\<close>

definition effective_proxy_count :: "config \<Rightarrow> int option \<Rightarrow> int" where
  "effective_proxy_count cfg arg =
     (case arg of None \<Rightarrow> trusted_proxy_count cfg | Some n \<Rightarrow> n)"

definition extract_ip_from_headers ::
  "config \<Rightarrow> (string \<rightharpoonup> string) \<Rightarrow> int option \<Rightarrow> py_error + string" where
  "extract_ip_from_headers cfg hdrs arg =
     (let tpc = effective_proxy_count cfg arg
      in if tpc = 0 then Inr ''unknown''
         else (let forwarded_for = dict_get hdrs ''x-forwarded-for'' ''''
               in if forwarded_for \<noteq> []
                  then (let ips = parse_forwarded_for forwarded_for
                        in if int (length ips) > tpc then list_getitem ips (- (tpc + 1))
                           else if ips \<noteq> [] then list_getitem ips 0
                           else extract_ip_fallback hdrs)
                  else extract_ip_fallback hdrs))"

section \<open>The proxy-chain parser as the specification words it\<close>

text \<open>
  Section 4.1 of the specification: the raw header is split on commas, every piece is
  trimmed, the pieces that are empty after trimming are dropped, and what remains is
  returned in order. This definition follows those words; the one the code runs is
  \<^const>\<open>parse_forwarded_for\<close>.
\<close>

definition proxy_chain_parser_spec :: "string \<Rightarrow> string list" where
  "proxy_chain_parser_spec raw =
     filter (\<lambda>piece. piece \<noteq> []) (map str_strip (str_split CHR '','' raw))"

section \<open>Facts about the built-ins\<close>

lemma lower_forwarded_for: "map ascii_lower ''X-Forwarded-For'' = ''x-forwarded-for''"
  by code_simp

lemma lower_real_ip: "map ascii_lower ''X-Real-IP'' = ''x-real-ip''"
  by code_simp

lemma headers_get_forwarded_for:
  "headers_get hs ''X-Forwarded-For'' = map_of hs ''x-forwarded-for''"
  unfolding headers_get_def lower_forwarded_for ..

lemma headers_get_real_ip:
  "headers_get hs ''X-Real-IP'' = map_of hs ''x-real-ip''"
  unfolding headers_get_def lower_real_ip ..

lemma list_getitem_from_end:
  assumes "0 \<le> n" and "n < int (length xs)"
  shows "list_getitem xs (- (n + 1)) = Inr (xs ! (length xs - nat n - 1))"
proof -
  have "nat (int (length xs) + - (n + 1)) = length xs - nat n - 1"
    using assms by linarith
  then show ?thesis
    using assms by (simp add: list_getitem_def)
qed

lemma list_getitem_first: "xs \<noteq> [] \<Longrightarrow> list_getitem xs 0 = Inr (xs ! 0)"
  by (simp add: list_getitem_def)

lemma parse_forwarded_for_empty: "parse_forwarded_for [] = []"
  by (simp add: parse_forwarded_for_def str_strip_def)

lemma str_split_not_Nil: "str_split sep s \<noteq> []"
  by (induction s) (auto split: list.splits)

lemma str_split_no_sep: "p \<in> set (str_split sep s) \<Longrightarrow> sep \<notin> set p"
  by (induction s arbitrary: p) (auto split: list.splits if_splits)

lemma str_split_length: "length (str_split sep s) = Suc (count_list s sep)"
  by (induction s) (auto split: list.splits simp: str_split_not_Nil)

lemma str_split_concat: "concat (str_split sep s) = filter (\<lambda>c. c \<noteq> sep) s"
  by (induction s) (auto split: list.splits)

lemma str_strip_empty_iff: "str_strip s = [] \<longleftrightarrow> (\<forall>c \<in> set s. str_isspace c)"
proof
  assume "str_strip s = []"
  then have all: "\<forall>c \<in> set (dropWhile str_isspace s). str_isspace c"
    by (simp add: str_strip_def dropWhile_eq_Nil_conv)
  have "dropWhile str_isspace s = []"
  proof (rule ccontr)
    assume ne: "dropWhile str_isspace s \<noteq> []"
    then have "\<not> str_isspace (hd (dropWhile str_isspace s))" by (rule hd_dropWhile)
    with all ne show False by (meson hd_in_set)
  qed
  then show "\<forall>c \<in> set s. str_isspace c"
    by (simp add: dropWhile_eq_Nil_conv)
next
  assume "\<forall>c \<in> set s. str_isspace c"
  then have d: "dropWhile str_isspace s = []"
    by (simp add: dropWhile_eq_Nil_conv)
  show "str_strip s = []"
    unfolding str_strip_def d by simp
qed

lemma str_strip_decompose:
  "\<exists>l r. s = l @ str_strip s @ r \<and> (\<forall>c \<in> set l. str_isspace c) \<and> (\<forall>c \<in> set r. str_isspace c)"
proof -
  let ?l = "takeWhile str_isspace s"
  let ?m = "dropWhile str_isspace s"
  let ?r = "rev (takeWhile str_isspace (rev ?m))"
  have "rev ?m = takeWhile str_isspace (rev ?m) @ dropWhile str_isspace (rev ?m)"
    by simp
  then have "?m = str_strip s @ ?r"
    by (metis rev_append rev_rev_ident str_strip_def)
  then have "s = ?l @ str_strip s @ ?r"
    by (metis takeWhile_dropWhile_id)
  moreover have "\<forall>c \<in> set ?l. str_isspace c"
    by (auto dest: set_takeWhileD)
  moreover have "\<forall>c \<in> set ?r. str_isspace c"
    by (auto dest: set_takeWhileD)
  ultimately show ?thesis by blast
qed

lemma str_strip_ends:
  assumes "str_strip s \<noteq> []"
  shows "\<not> str_isspace (hd (str_strip s)) \<and> \<not> str_isspace (last (str_strip s))"
proof -
  let ?m = "dropWhile str_isspace s"
  let ?k = "dropWhile str_isspace (rev ?m)"
  have k: "?k \<noteq> []" using assms by (simp add: str_strip_def)
  then have "\<not> str_isspace (hd ?k)" by (rule hd_dropWhile)
  then have l: "\<not> str_isspace (last (str_strip s))"
    using k by (simp add: str_strip_def last_rev)
  have m: "?m \<noteq> []" using k by (metis dropWhile.simps(1) rev.simps(1))
  then have hm: "\<not> str_isspace (hd ?m)" by (rule hd_dropWhile)
  obtain r where r: "?m = str_strip s @ r"
    by (metis str_strip_def rev_append rev_rev_ident takeWhile_dropWhile_id)
  then have "hd ?m = hd (str_strip s)" using assms by (metis hd_append2)
  with hm l show ?thesis by simp
qed

section \<open>The branches of the two resolvers\<close>

lemma parse_nonempty_raw: "parse_forwarded_for v \<noteq> [] \<Longrightarrow> v \<noteq> []"
  using parse_forwarded_for_empty by blast

lemma get_client_ip_long_chain:
  assumes "0 < trusted_proxy_count cfg"
    and "headers_get (headers request) ''X-Forwarded-For'' = Some v"
    and "trusted_proxy_count cfg < int (length (parse_forwarded_for v))"
  shows "get_client_ip cfg request =
           Inr (parse_forwarded_for v !
                  (length (parse_forwarded_for v) - nat (trusted_proxy_count cfg) - 1))"
proof -
  from assms(1,3) have "parse_forwarded_for v \<noteq> []" by auto
  then have "v \<noteq> []" by (rule parse_nonempty_raw)
  moreover have "list_getitem (parse_forwarded_for v) (- (trusted_proxy_count cfg + 1)) =
      Inr (parse_forwarded_for v !
             (length (parse_forwarded_for v) - nat (trusted_proxy_count cfg) - 1))"
    using assms(1,3) by (intro list_getitem_from_end) simp_all
  ultimately show ?thesis
    using assms by (simp add: get_client_ip_def Let_def)
qed

lemma get_client_ip_short_chain:
  assumes "0 < trusted_proxy_count cfg"
    and "headers_get (headers request) ''X-Forwarded-For'' = Some v"
    and "parse_forwarded_for v \<noteq> []"
    and "int (length (parse_forwarded_for v)) \<le> trusted_proxy_count cfg"
  shows "get_client_ip cfg request = Inr (parse_forwarded_for v ! 0)"
proof -
  from assms(3) have "v \<noteq> []" by (rule parse_nonempty_raw)
  with assms show ?thesis
    by (simp add: get_client_ip_def Let_def list_getitem_first)
qed

lemma get_client_ip_no_chain:
  assumes "0 < trusted_proxy_count cfg"
    and "headers_get (headers request) ''X-Forwarded-For'' = None \<or>
         (\<exists>v. headers_get (headers request) ''X-Forwarded-For'' = Some v \<and>
              parse_forwarded_for v = [])"
  shows "get_client_ip cfg request = get_client_ip_fallback request"
  using assms by (auto simp: get_client_ip_def Let_def)

lemma extract_ip_long_chain:
  assumes "0 < effective_proxy_count cfg arg"
    and "hdrs ''x-forwarded-for'' = Some v"
    and "effective_proxy_count cfg arg < int (length (parse_forwarded_for v))"
  shows "extract_ip_from_headers cfg hdrs arg =
           Inr (parse_forwarded_for v !
                  (length (parse_forwarded_for v) - nat (effective_proxy_count cfg arg) - 1))"
proof -
  from assms(1,3) have "parse_forwarded_for v \<noteq> []" by auto
  then have "v \<noteq> []" by (rule parse_nonempty_raw)
  moreover have "list_getitem (parse_forwarded_for v) (- (effective_proxy_count cfg arg + 1)) =
      Inr (parse_forwarded_for v !
             (length (parse_forwarded_for v) - nat (effective_proxy_count cfg arg) - 1))"
    using assms(1,3) by (intro list_getitem_from_end) simp_all
  ultimately show ?thesis
    using assms by (simp add: extract_ip_from_headers_def dict_get_def Let_def)
qed

lemma extract_ip_short_chain:
  assumes "0 < effective_proxy_count cfg arg"
    and "hdrs ''x-forwarded-for'' = Some v"
    and "parse_forwarded_for v \<noteq> []"
    and "int (length (parse_forwarded_for v)) \<le> effective_proxy_count cfg arg"
  shows "extract_ip_from_headers cfg hdrs arg = Inr (parse_forwarded_for v ! 0)"
proof -
  from assms(3) have "v \<noteq> []" by (rule parse_nonempty_raw)
  with assms show ?thesis
    by (simp add: extract_ip_from_headers_def dict_get_def Let_def list_getitem_first)
qed

lemma extract_ip_no_chain:
  assumes "0 < effective_proxy_count cfg arg"
    and "hdrs ''x-forwarded-for'' = None \<or>
         (\<exists>v. hdrs ''x-forwarded-for'' = Some v \<and> parse_forwarded_for v = [])"
  shows "extract_ip_from_headers cfg hdrs arg = extract_ip_fallback hdrs"
  using assms by (auto simp: extract_ip_from_headers_def dict_get_def Let_def)

lemma get_client_ip_fallback_total: "\<exists>ip. get_client_ip_fallback request = Inr ip"
  by (simp add: get_client_ip_fallback_def split: option.split)

lemma extract_ip_fallback_total: "\<exists>ip. extract_ip_fallback hdrs = Inr ip"
  by (simp add: extract_ip_fallback_def Let_def)

lemma parse_forwarded_for_entries:
  assumes "ip \<in> set (parse_forwarded_for v)"
  shows "ip \<noteq> [] \<and> (\<exists>piece \<in> set (str_split CHR '','' v). ip = str_strip piece)"
  using assms by (auto simp: parse_forwarded_for_def)

lemma get_client_ip_depends_on_chain:
  assumes "0 < trusted_proxy_count cfg"
    and "headers_get (headers request) ''X-Forwarded-For'' = Some v"
    and "parse_forwarded_for v \<noteq> []"
  shows "get_client_ip cfg request =
           (if trusted_proxy_count cfg < int (length (parse_forwarded_for v))
            then Inr (parse_forwarded_for v !
                        (length (parse_forwarded_for v) - nat (trusted_proxy_count cfg) - 1))
            else Inr (parse_forwarded_for v ! 0))"
  using assms get_client_ip_long_chain [of cfg request v]
    get_client_ip_short_chain [of cfg request v]
  by simp

lemma get_client_ip_total:
  assumes "0 \<le> trusted_proxy_count cfg"
  shows "\<exists>ip. get_client_ip cfg request = Inr ip"
proof (cases "trusted_proxy_count cfg = 0")
  case True
  then show ?thesis by (simp add: get_client_ip_def)
next
  case False
  with assms have pos: "0 < trusted_proxy_count cfg" by simp
  show ?thesis
  proof (cases "headers_get (headers request) ''X-Forwarded-For''")
    case None
    with pos have "get_client_ip cfg request = get_client_ip_fallback request"
      by (intro get_client_ip_no_chain) simp_all
    then show ?thesis using get_client_ip_fallback_total [of request] by simp
  next
    case (Some v)
    show ?thesis
    proof (cases "parse_forwarded_for v = []")
      case True
      with pos Some have "get_client_ip cfg request = get_client_ip_fallback request"
        by (intro get_client_ip_no_chain) simp_all
      then show ?thesis using get_client_ip_fallback_total [of request] by simp
    next
      case False
      with pos Some show ?thesis
        using get_client_ip_depends_on_chain [of cfg request v] by simp
    qed
  qed
qed

lemma extract_ip_from_headers_total:
  assumes "0 \<le> effective_proxy_count cfg arg"
  shows "\<exists>ip. extract_ip_from_headers cfg hdrs arg = Inr ip"
proof (cases "effective_proxy_count cfg arg = 0")
  case True
  then show ?thesis by (simp add: extract_ip_from_headers_def)
next
  case False
  with assms have pos: "0 < effective_proxy_count cfg arg" by simp
  show ?thesis
  proof (cases "hdrs ''x-forwarded-for''")
    case None
    with pos have "extract_ip_from_headers cfg hdrs arg = extract_ip_fallback hdrs"
      by (intro extract_ip_no_chain) simp_all
    then show ?thesis using extract_ip_fallback_total [of hdrs] by simp
  next
    case (Some v)
    show ?thesis
    proof (cases "parse_forwarded_for v = []")
      case True
      with pos Some have "extract_ip_from_headers cfg hdrs arg = extract_ip_fallback hdrs"
        by (intro extract_ip_no_chain) simp_all
      then show ?thesis using extract_ip_fallback_total [of hdrs] by simp
    next
      case False
      show ?thesis
      proof (cases "effective_proxy_count cfg arg < int (length (parse_forwarded_for v))")
        case True
        with pos Some show ?thesis
          using extract_ip_long_chain [of cfg arg hdrs v] by simp
      next
        case short: False
        with pos Some False show ?thesis
          using extract_ip_short_chain [of cfg arg hdrs v] by simp
      qed
    qed
  qed
qed

text \<open>
  The bound \<open>0 \<le> N\<close> of the totality results is needed: a negative trust depth passes
  the length test on an empty chain and the index is then out of range.
\<close>

lemma negative_depth_raises:
  "get_client_ip \<lparr>trusted_proxy_count = - 1\<rparr>
     \<lparr>client = None, headers = [(''x-forwarded-for'', '','')]\<rparr> = Inl IndexError"
  by code_simp

lemma str_split_piece_chars: "p \<in> set (str_split sep s) \<Longrightarrow> set p \<subseteq> set s"
proof -
  assume "p \<in> set (str_split sep s)"
  then have "set p \<subseteq> set (concat (str_split sep s))" by auto
  also have "\<dots> \<subseteq> set s" by (simp add: str_split_concat)
  finally show ?thesis .
qed

lemma str_strip_chars: "set (str_strip s) \<subseteq> set s"
proof -
  have "set (str_strip s) \<subseteq> set (rev (dropWhile str_isspace s))"
    unfolding str_strip_def by (auto dest: set_dropWhileD)
  also have "\<dots> \<subseteq> set s" by (auto dest: set_dropWhileD)
  finally show ?thesis .
qed

lemma parse_forwarded_for_refines: "parse_forwarded_for raw = proxy_chain_parser_spec raw"
  by (simp add: parse_forwarded_for_def proxy_chain_parser_spec_def filter_map comp_def)

lemma parse_forwarded_for_blank:
  assumes "\<forall>c \<in> set raw. str_isspace c"
  shows "parse_forwarded_for raw = []"
proof -
  have "str_strip p = []" if "p \<in> set (str_split CHR '','' raw)" for p
    using that assms str_split_piece_chars [of p "CHR '',''" raw]
    by (auto simp: str_strip_empty_iff)
  then show ?thesis
    by (simp add: parse_forwarded_for_def filter_empty_conv)
qed

lemma parse_forwarded_for_trimmed:
  assumes "ip \<in> set (parse_forwarded_for raw)"
  shows "ip \<noteq> [] \<and> \<not> str_isspace (hd ip) \<and> \<not> str_isspace (last ip) \<and> CHR '','' \<notin> set ip"
proof -
  from assms obtain piece where piece: "piece \<in> set (str_split CHR '','' raw)"
    and ip: "ip = str_strip piece" and ne: "ip \<noteq> []"
    using parse_forwarded_for_entries [of ip raw] by blast
  have "CHR '','' \<notin> set piece" using piece by (rule str_split_no_sep)
  then have "CHR '','' \<notin> set ip" using str_strip_chars [of piece] ip by blast
  moreover have "\<not> str_isspace (hd ip) \<and> \<not> str_isspace (last ip)"
    using ne str_strip_ends [of piece] ip by simp
  ultimately show ?thesis using ne by simp
qed

section \<open>Zero trust depth\<close>

text \<open>
  Claim C1. With a configured trust depth of 0, \<^verbatim>\<open>get_client_ip\<close> returns the host of
  the transport-level peer when the request has a client whose host is a non-empty
  string, and the sentinel \<^verbatim>\<open>"unknown"\<close> otherwise; the result is a function of
  the peer alone: replacing the headers of the request by any others, forged
  \<^verbatim>\<open>X-Forwarded-For\<close> chains and \<^verbatim>\<open>X-Real-IP\<close> values included, leaves it unchanged.
\<close>

theorem zero_trust_ignores_headers:
  assumes "trusted_proxy_count cfg = 0"
  shows "get_client_ip cfg request =
           Inr (case client request of
                  None \<Rightarrow> ''unknown''
                | Some a \<Rightarrow> if host a \<noteq> [] then host a else ''unknown'')
         \<and> (\<forall>hs. get_client_ip cfg (request\<lparr>headers := hs\<rparr>) = get_client_ip cfg request)"
  using assms by (simp add: get_client_ip_def client_host_or_unknown_def)

theorem zero_trust_ignores_headers_witness:
  "trusted_proxy_count \<lparr>trusted_proxy_count = 0\<rparr> = 0
   \<and> get_client_ip \<lparr>trusted_proxy_count = 0\<rparr>
        \<lparr>client = Some \<lparr>host = ''203.0.113.5'', port = 443\<rparr>,
         headers = [(''x-forwarded-for'', ''6.6.6.6, 7.7.7.7''), (''x-real-ip'', ''8.8.8.8'')]\<rparr>
       = Inr ''203.0.113.5''
   \<and> get_client_ip \<lparr>trusted_proxy_count = 0\<rparr>
        \<lparr>client = Some \<lparr>host = ''203.0.113.5'', port = 443\<rparr>, headers = []\<rparr>
       = Inr ''203.0.113.5''"
proof -
  have h: "trusted_proxy_count \<lparr>trusted_proxy_count = 0\<rparr> = 0" by simp
  show ?thesis
    using h zero_trust_ignores_headers [OF h, of
        "\<lparr>client = Some \<lparr>host = ''203.0.113.5'', port = 443\<rparr>,
          headers = [(''x-forwarded-for'', ''6.6.6.6, 7.7.7.7''), (''x-real-ip'', ''8.8.8.8'')]\<rparr>"]
    by (auto dest: spec [of _ "[]"])
qed

section \<open>Selecting from the chain\<close>


text \<open>
  Claim C2. For a trust depth \<open>N > 0\<close> and an \<^verbatim>\<open>X-Forwarded-For\<close> value whose parsed
  chain has \<open>M > N\<close> entries, \<^verbatim>\<open>get_client_ip\<close> and \<^verbatim>\<open>extract_ip_from_headers\<close>
  both return the entry of index \<open>M - N - 1\<close>, counted from the outermost entry.
\<close>

theorem chain_indexing_law:
  assumes "0 < N" and "N < int (length (parse_forwarded_for v))"
  shows "(trusted_proxy_count cfg = N \<and>
          headers_get (headers request) ''X-Forwarded-For'' = Some v \<longrightarrow>
            get_client_ip cfg request =
              Inr (parse_forwarded_for v ! (length (parse_forwarded_for v) - nat N - 1)))
       \<and> (effective_proxy_count cfg arg = N \<and> hdrs ''x-forwarded-for'' = Some v \<longrightarrow>
            extract_ip_from_headers cfg hdrs arg =
              Inr (parse_forwarded_for v ! (length (parse_forwarded_for v) - nat N - 1)))"
  using assms get_client_ip_long_chain [of cfg request v]
    extract_ip_long_chain [of cfg arg hdrs v]
  by blast

theorem chain_indexing_law_witness:
  "0 < (1::int)
   \<and> 1 < int (length (parse_forwarded_for ''1.2.3.4, 10.0.0.1, 10.0.0.2''))
   \<and> get_client_ip \<lparr>trusted_proxy_count = 1\<rparr>
        \<lparr>client = None, headers = [(''x-forwarded-for'', ''1.2.3.4, 10.0.0.1, 10.0.0.2'')]\<rparr>
       = Inr ''10.0.0.1''
   \<and> extract_ip_from_headers \<lparr>trusted_proxy_count = 7\<rparr>
        [''x-forwarded-for'' \<mapsto> ''1.2.3.4, 10.0.0.1, 10.0.0.2''] (Some 1)
       = Inr ''10.0.0.1''"
proof -
  have p: "parse_forwarded_for ''1.2.3.4, 10.0.0.1, 10.0.0.2'' =
      [''1.2.3.4'', ''10.0.0.1'', ''10.0.0.2'']"
    by code_simp
  have h1: "0 < (1::int)" by simp
  have h2: "1 < int (length (parse_forwarded_for ''1.2.3.4, 10.0.0.1, 10.0.0.2''))"
    by (simp add: p)
  show ?thesis
    using h1 h2
      chain_indexing_law [OF h1 h2, where cfg = "\<lparr>trusted_proxy_count = 1\<rparr>"
        and request = "\<lparr>client = None,
          headers = [(''x-forwarded-for'', ''1.2.3.4, 10.0.0.1, 10.0.0.2'')]\<rparr>"
        and arg = "Some 1"
        and hdrs = "[''x-forwarded-for'' \<mapsto> ''1.2.3.4, 10.0.0.1, 10.0.0.2'']"]
      chain_indexing_law [OF h1 h2, where cfg = "\<lparr>trusted_proxy_count = 7\<rparr>"
        and arg = "Some 1"
        and hdrs = "[''x-forwarded-for'' \<mapsto> ''1.2.3.4, 10.0.0.1, 10.0.0.2'']"]
    by (simp add: p headers_get_forwarded_for effective_proxy_count_def)
qed

text \<open>
  Claim C5. For a trust depth \<open>N > 0\<close> and an \<^verbatim>\<open>X-Forwarded-For\<close> value whose parsed
  chain has \<open>M\<close> entries with \<open>1 \<le> M \<le> N\<close>, both resolvers return the outermost
  entry, the one of index 0.
\<close>

theorem short_chain_fallback:
  assumes "0 < N"
    and "parse_forwarded_for v \<noteq> []"
    and "int (length (parse_forwarded_for v)) \<le> N"
  shows "(trusted_proxy_count cfg = N \<and>
          headers_get (headers request) ''X-Forwarded-For'' = Some v \<longrightarrow>
            get_client_ip cfg request = Inr (parse_forwarded_for v ! 0))
       \<and> (effective_proxy_count cfg arg = N \<and> hdrs ''x-forwarded-for'' = Some v \<longrightarrow>
            extract_ip_from_headers cfg hdrs arg = Inr (parse_forwarded_for v ! 0))"
  using assms get_client_ip_short_chain [of cfg request v]
    extract_ip_short_chain [of cfg arg hdrs v]
  by blast

theorem short_chain_fallback_witness:
  "0 < (2::int)
   \<and> parse_forwarded_for ''1.2.3.4'' \<noteq> []
   \<and> int (length (parse_forwarded_for ''1.2.3.4'')) \<le> 2
   \<and> get_client_ip \<lparr>trusted_proxy_count = 2\<rparr>
        \<lparr>client = None, headers = [(''x-forwarded-for'', ''1.2.3.4'')]\<rparr>
       = Inr ''1.2.3.4''
   \<and> extract_ip_from_headers \<lparr>trusted_proxy_count = 2\<rparr>
        [''x-forwarded-for'' \<mapsto> ''1.2.3.4''] None
       = Inr ''1.2.3.4''"
proof -
  have p: "parse_forwarded_for ''1.2.3.4'' = [''1.2.3.4'']"
    by code_simp
  have h1: "0 < (2::int)" by simp
  have h2: "parse_forwarded_for ''1.2.3.4'' \<noteq> []" by (simp add: p)
  have h3: "int (length (parse_forwarded_for ''1.2.3.4'')) \<le> 2" by (simp add: p)
  show ?thesis
    using h1 h2 h3
      short_chain_fallback [OF h1 h2 h3, where cfg = "\<lparr>trusted_proxy_count = 2\<rparr>"
        and request = "\<lparr>client = None, headers = [(''x-forwarded-for'', ''1.2.3.4'')]\<rparr>"
        and arg = None
        and hdrs = "[''x-forwarded-for'' \<mapsto> ''1.2.3.4'']"]
    by (simp add: p headers_get_forwarded_for effective_proxy_count_def)
qed

text \<open>
  Claim C10. For a trust depth \<open>N > 0\<close> and an \<^verbatim>\<open>X-Forwarded-For\<close> value that parses
  to a non-empty chain, what \<^verbatim>\<open>get_client_ip\<close> and \<^verbatim>\<open>extract_ip_from_headers\<close>
  return is an entry of that chain, and every entry of the chain is a non-empty string
  obtained by trimming one comma-separated piece of the header: nothing is synthesised
  or concatenated.
\<close>

theorem result_is_chain_entry:
  assumes "0 < N" and "parse_forwarded_for v \<noteq> []"
  shows "(trusted_proxy_count cfg = N \<and>
          headers_get (headers request) ''X-Forwarded-For'' = Some v \<longrightarrow>
            (\<exists>ip \<in> set (parse_forwarded_for v). get_client_ip cfg request = Inr ip))
       \<and> (effective_proxy_count cfg arg = N \<and> hdrs ''x-forwarded-for'' = Some v \<longrightarrow>
            (\<exists>ip \<in> set (parse_forwarded_for v). extract_ip_from_headers cfg hdrs arg = Inr ip))
       \<and> (\<forall>ip \<in> set (parse_forwarded_for v).
            ip \<noteq> [] \<and> (\<exists>piece \<in> set (str_split CHR '','' v). ip = str_strip piece))"
proof (intro conjI impI ballI)
  let ?ips = "parse_forwarded_for v"
  have first: "?ips ! 0 \<in> set ?ips"
    using assms(2) by simp
  have nth: "?ips ! (length ?ips - nat N - 1) \<in> set ?ips"
    using assms(2) by simp
  {
    assume a: "trusted_proxy_count cfg = N \<and>
      headers_get (headers request) ''X-Forwarded-For'' = Some v"
    show "\<exists>ip \<in> set ?ips. get_client_ip cfg request = Inr ip"
    proof (cases "N < int (length ?ips)")
      case True
      with a assms(1) have "get_client_ip cfg request = Inr (?ips ! (length ?ips - nat N - 1))"
        using get_client_ip_long_chain [of cfg request v] by simp
      with nth show ?thesis by blast
    next
      case False
      with a assms have "get_client_ip cfg request = Inr (?ips ! 0)"
        using get_client_ip_short_chain [of cfg request v] by simp
      with first show ?thesis by blast
    qed
  }
  {
    assume a: "effective_proxy_count cfg arg = N \<and> hdrs ''x-forwarded-for'' = Some v"
    show "\<exists>ip \<in> set ?ips. extract_ip_from_headers cfg hdrs arg = Inr ip"
    proof (cases "N < int (length ?ips)")
      case True
      with a assms(1) have "extract_ip_from_headers cfg hdrs arg =
          Inr (?ips ! (length ?ips - nat N - 1))"
        using extract_ip_long_chain [of cfg arg hdrs v] by simp
      with nth show ?thesis by blast
    next
      case False
      with a assms have "extract_ip_from_headers cfg hdrs arg = Inr (?ips ! 0)"
        using extract_ip_short_chain [of cfg arg hdrs v] by simp
      with first show ?thesis by blast
    qed
  }
  {
    fix ip assume "ip \<in> set ?ips"
    then show "ip \<noteq> []" and "\<exists>piece \<in> set (str_split CHR '','' v). ip = str_strip piece"
      using parse_forwarded_for_entries [of ip v] by simp_all
  }
qed

theorem result_is_chain_entry_witness:
  "0 < (1::int)
   \<and> parse_forwarded_for '' 6.6.6.6 ,10.0.0.1'' \<noteq> []
   \<and> (\<exists>ip \<in> {''6.6.6.6'', ''10.0.0.1''}.
         get_client_ip \<lparr>trusted_proxy_count = 1\<rparr>
           \<lparr>client = Some \<lparr>host = ''192.0.2.1'', port = 80\<rparr>,
            headers = [(''x-forwarded-for'', '' 6.6.6.6 ,10.0.0.1''),
                       (''x-real-ip'', ''8.8.8.8'')]\<rparr> = Inr ip)
   \<and> (\<exists>ip \<in> {''6.6.6.6'', ''10.0.0.1''}.
         extract_ip_from_headers \<lparr>trusted_proxy_count = 1\<rparr>
           [''x-forwarded-for'' \<mapsto> '' 6.6.6.6 ,10.0.0.1''] None = Inr ip)"
proof -
  have p: "parse_forwarded_for '' 6.6.6.6 ,10.0.0.1'' = [''6.6.6.6'', ''10.0.0.1'']"
    by code_simp
  have h1: "0 < (1::int)" by simp
  have h2: "parse_forwarded_for '' 6.6.6.6 ,10.0.0.1'' \<noteq> []" by (simp add: p)
  show ?thesis
    using h1 h2
      result_is_chain_entry [OF h1 h2, where cfg = "\<lparr>trusted_proxy_count = 1\<rparr>"
        and request = "\<lparr>client = Some \<lparr>host = ''192.0.2.1'', port = 80\<rparr>,
            headers = [(''x-forwarded-for'', '' 6.6.6.6 ,10.0.0.1''),
                       (''x-real-ip'', ''8.8.8.8'')]\<rparr>"
        and arg = None
        and hdrs = "[''x-forwarded-for'' \<mapsto> '' 6.6.6.6 ,10.0.0.1'']"]
    by (simp add: p headers_get_forwarded_for effective_proxy_count_def)
qed

section \<open>The order of the sources\<close>

text \<open>
  Claim C6. For a trust depth \<open>N > 0\<close>: when \<^verbatim>\<open>X-Forwarded-For\<close> is present and parses
  to a non-empty chain, \<^verbatim>\<open>get_client_ip\<close> gives the same result on every request that
  carries this \<^verbatim>\<open>X-Forwarded-For\<close> value, whatever its \<^verbatim>\<open>X-Real-IP\<close> header and its
  transport-level peer are; when \<^verbatim>\<open>X-Forwarded-For\<close> is absent or parses to an empty
  chain and \<^verbatim>\<open>X-Real-IP\<close> is present and non-empty after trimming, the result is the
  trimmed \<^verbatim>\<open>X-Real-IP\<close> value, whatever the peer is.
\<close>

theorem fallback_ordering:
  assumes "0 < trusted_proxy_count cfg"
  shows "(headers_get (headers request) ''X-Forwarded-For'' = Some v \<and>
          parse_forwarded_for v \<noteq> [] \<and>
          headers_get (headers request') ''X-Forwarded-For'' = Some v \<longrightarrow>
            get_client_ip cfg request' = get_client_ip cfg request)
       \<and> ((headers_get (headers request) ''X-Forwarded-For'' = None \<or>
            (\<exists>u. headers_get (headers request) ''X-Forwarded-For'' = Some u \<and>
                 parse_forwarded_for u = [])) \<and>
           headers_get (headers request) ''X-Real-IP'' = Some real_ip \<and>
           str_strip real_ip \<noteq> [] \<longrightarrow>
             get_client_ip cfg request = Inr (str_strip real_ip))"
proof (intro conjI impI)
  assume a: "headers_get (headers request) ''X-Forwarded-For'' = Some v \<and>
    parse_forwarded_for v \<noteq> [] \<and>
    headers_get (headers request') ''X-Forwarded-For'' = Some v"
  show "get_client_ip cfg request' = get_client_ip cfg request"
    using assms a get_client_ip_depends_on_chain [of cfg request v]
      get_client_ip_depends_on_chain [of cfg request' v]
    by simp
next
  assume a: "(headers_get (headers request) ''X-Forwarded-For'' = None \<or>
      (\<exists>u. headers_get (headers request) ''X-Forwarded-For'' = Some u \<and>
           parse_forwarded_for u = [])) \<and>
    headers_get (headers request) ''X-Real-IP'' = Some real_ip \<and>
    str_strip real_ip \<noteq> []"
  then have "real_ip \<noteq> []" by (auto simp: str_strip_def)
  moreover have "get_client_ip cfg request = get_client_ip_fallback request"
    using assms a by (intro get_client_ip_no_chain) simp_all
  ultimately show "get_client_ip cfg request = Inr (str_strip real_ip)"
    using a by (simp add: get_client_ip_fallback_def)
qed



theorem fallback_ordering_witness:
  "0 < trusted_proxy_count \<lparr>trusted_proxy_count = 2\<rparr>
   \<and> get_client_ip \<lparr>trusted_proxy_count = 2\<rparr>
        \<lparr>client = None,
         headers = [(''x-forwarded-for'', ''1.2.3.4''), (''x-real-ip'', ''8.8.8.8'')]\<rparr>
       = get_client_ip \<lparr>trusted_proxy_count = 2\<rparr>
           \<lparr>client = Some \<lparr>host = ''192.0.2.1'', port = 80\<rparr>,
            headers = [(''x-forwarded-for'', ''1.2.3.4'')]\<rparr>
   \<and> get_client_ip \<lparr>trusted_proxy_count = 2\<rparr>
        \<lparr>client = Some \<lparr>host = ''192.0.2.1'', port = 80\<rparr>,
         headers = [(''x-forwarded-for'', '' , ''), (''x-real-ip'', ''  9.9.9.9  '')]\<rparr>
       = Inr ''9.9.9.9''"
proof -
  let ?r1 = "\<lparr>client = Some \<lparr>host = ''192.0.2.1'', port = 80\<rparr>,
             headers = [(''x-forwarded-for'', ''1.2.3.4'')]\<rparr>"
  let ?r2 = "\<lparr>client = None,
             headers = [(''x-forwarded-for'', ''1.2.3.4''), (''x-real-ip'', ''8.8.8.8'')]\<rparr>"
  let ?r3 = "\<lparr>client = Some \<lparr>host = ''192.0.2.1'', port = 80\<rparr>,
             headers = [(''x-forwarded-for'', '' , ''), (''x-real-ip'', ''  9.9.9.9  '')]\<rparr>"
  have h: "0 < trusted_proxy_count \<lparr>trusted_proxy_count = 2\<rparr>" by simp
  have p: "parse_forwarded_for ''1.2.3.4'' \<noteq> []" by code_simp
  have q: "parse_forwarded_for '' , '' = []" by code_simp
  have s: "str_strip ''  9.9.9.9  '' = ''9.9.9.9''" by code_simp
  have a1: "headers_get (headers ?r1) ''X-Forwarded-For'' = Some ''1.2.3.4''"
    by (simp add: headers_get_forwarded_for)
  have a2: "headers_get (headers ?r2) ''X-Forwarded-For'' = Some ''1.2.3.4''"
    by (simp add: headers_get_forwarded_for)
  have a3: "headers_get (headers ?r3) ''X-Forwarded-For'' = Some '' , ''"
    by (simp add: headers_get_forwarded_for)
  have b3: "headers_get (headers ?r3) ''X-Real-IP'' = Some ''  9.9.9.9  ''"
    by (simp add: headers_get_real_ip)
  have c3: "headers_get (headers ?r3) ''X-Forwarded-For'' = None \<or>
            (\<exists>u. headers_get (headers ?r3) ''X-Forwarded-For'' = Some u \<and>
                 parse_forwarded_for u = [])"
    using a3 q by blast
  have d3: "str_strip ''  9.9.9.9  '' \<noteq> []" by (simp add: s)
  have first: "get_client_ip \<lparr>trusted_proxy_count = 2\<rparr> ?r2 =
      get_client_ip \<lparr>trusted_proxy_count = 2\<rparr> ?r1"
    by (rule fallback_ordering [OF h, THEN conjunct1, rule_format,
          OF conjI [OF a1 conjI [OF p a2]]])
  have "get_client_ip \<lparr>trusted_proxy_count = 2\<rparr> ?r3 = Inr (str_strip ''  9.9.9.9  '')"
    by (rule fallback_ordering [OF h, THEN conjunct2, rule_format,
          OF conjI [OF c3 conjI [OF b3 d3]]])
  then have second: "get_client_ip \<lparr>trusted_proxy_count = 2\<rparr> ?r3 = Inr ''9.9.9.9''"
    by (simp only: s)
  from h first second show ?thesis by (intro conjI)
qed

section \<open>Totality\<close>


text \<open>
  Claim C8. For every trust depth \<open>N \<ge> 0\<close> and every input (headers absent, empty
  chains, chains shorter than the trust depth, whitespace-only entries, no transport
  address) \<^verbatim>\<open>get_client_ip\<close> and \<^verbatim>\<open>extract_ip_from_headers\<close> return a string and raise
  nothing; the index \<open>-(N + 1)\<close> is in range whenever the chain is longer than \<open>N\<close>,
  which is the only case where it is evaluated.
\<close>

theorem resolvers_total:
  "(0 \<le> trusted_proxy_count cfg \<longrightarrow> (\<exists>ip. get_client_ip cfg request = Inr ip))
   \<and> (0 \<le> effective_proxy_count cfg arg \<longrightarrow>
        (\<exists>ip. extract_ip_from_headers cfg hdrs arg = Inr ip))
   \<and> (0 \<le> N \<and> N < int (length ips) \<longrightarrow>
        list_getitem ips (- (N + 1)) = Inr (ips ! (length ips - nat N - 1)))"
  using get_client_ip_total [of cfg request] extract_ip_from_headers_total [of cfg arg hdrs]
    list_getitem_from_end [of N ips]
  by blast

theorem resolvers_total_witness:
  "0 \<le> trusted_proxy_count \<lparr>trusted_proxy_count = 3\<rparr>
   \<and> (\<exists>ip. get_client_ip \<lparr>trusted_proxy_count = 3\<rparr>
              \<lparr>client = None, headers = [(''x-forwarded-for'', '' , '')]\<rparr> = Inr ip)
   \<and> 0 \<le> effective_proxy_count \<lparr>trusted_proxy_count = 3\<rparr> None
   \<and> (\<exists>ip. extract_ip_from_headers \<lparr>trusted_proxy_count = 3\<rparr>
              [''x-forwarded-for'' \<mapsto> ''1.2.3.4''] None = Inr ip)
   \<and> (0::int) \<le> 1 \<and> (1::int) < int (length [''a'', ''b'', ''c''])
   \<and> list_getitem [''a'', ''b'', ''c''] (- (1 + 1)) = Inr ''b''"
proof -
  have h1: "0 \<le> trusted_proxy_count \<lparr>trusted_proxy_count = 3\<rparr>" by simp
  have h2: "0 \<le> effective_proxy_count \<lparr>trusted_proxy_count = 3\<rparr> None"
    by (simp add: effective_proxy_count_def)
  have h3: "(0::int) \<le> 1 \<and> (1::int) < int (length [''a'', ''b'', ''c''])" by simp
  note t = resolvers_total [where cfg = "\<lparr>trusted_proxy_count = 3\<rparr>" and arg = None
      and request = "\<lparr>client = None, headers = [(''x-forwarded-for'', '' , '')]\<rparr>"
      and hdrs = "[''x-forwarded-for'' \<mapsto> ''1.2.3.4'']"
      and N = 1 and ips = "[''a'', ''b'', ''c'']"]
  have c1: "\<exists>ip. get_client_ip \<lparr>trusted_proxy_count = 3\<rparr>
              \<lparr>client = None, headers = [(''x-forwarded-for'', '' , '')]\<rparr> = Inr ip"
    by (rule t [THEN conjunct1, rule_format, OF h1])
  have c2: "\<exists>ip. extract_ip_from_headers \<lparr>trusted_proxy_count = 3\<rparr>
              [''x-forwarded-for'' \<mapsto> ''1.2.3.4''] None = Inr ip"
    by (rule t [THEN conjunct2, THEN conjunct1, rule_format, OF h2])
  have "list_getitem [''a'', ''b'', ''c''] (- (1 + 1)) =
      Inr ([''a'', ''b'', ''c''] ! (length [''a'', ''b'', ''c''] - nat 1 - 1))"
    by (rule t [THEN conjunct2, THEN conjunct2, rule_format, OF h3])
  then have c3: "list_getitem [''a'', ''b'', ''c''] (- (1 + 1)) = Inr ''b''"
    by simp
  from h1 c1 h2 c2 h3 c3 show ?thesis by blast
qed

section \<open>The header-only variant\<close>

text \<open>
  Claim C4. Whatever the header mapping, when the trust depth in force is 0 (given as
  the argument, or taken from the configuration when the argument is \<^verbatim>\<open>None\<close>)
  \<^verbatim>\<open>extract_ip_from_headers\<close> returns the sentinel \<^verbatim>\<open>"unknown"\<close>; this holds on
  the inputs where \<^verbatim>\<open>get_client_ip\<close>, with trust depth 0 and a peer address, returns
  that address.
\<close>

theorem header_only_zero_trust_unknown:
  "(effective_proxy_count cfg arg = 0 \<longrightarrow>
      extract_ip_from_headers cfg hdrs arg = Inr ''unknown'')
   \<and> (trusted_proxy_count cfg = 0 \<and> client request = Some a \<and> host a \<noteq> [] \<longrightarrow>
        get_client_ip cfg request = Inr (host a) \<and>
        extract_ip_from_headers cfg hdrs None = Inr ''unknown'')"
  by (simp add: extract_ip_from_headers_def get_client_ip_def client_host_or_unknown_def
      effective_proxy_count_def)

theorem header_only_zero_trust_unknown_witness:
  "effective_proxy_count \<lparr>trusted_proxy_count = 5\<rparr> (Some 0) = 0
   \<and> extract_ip_from_headers \<lparr>trusted_proxy_count = 5\<rparr>
        [''x-forwarded-for'' \<mapsto> ''1.2.3.4'', ''x-real-ip'' \<mapsto> ''8.8.8.8''] (Some 0)
       = Inr ''unknown''
   \<and> get_client_ip \<lparr>trusted_proxy_count = 0\<rparr>
        \<lparr>client = Some \<lparr>host = ''203.0.113.5'', port = 443\<rparr>,
         headers = [(''x-forwarded-for'', ''1.2.3.4''), (''x-real-ip'', ''8.8.8.8'')]\<rparr>
       = Inr ''203.0.113.5''
   \<and> extract_ip_from_headers \<lparr>trusted_proxy_count = 0\<rparr>
        [''x-forwarded-for'' \<mapsto> ''1.2.3.4'', ''x-real-ip'' \<mapsto> ''8.8.8.8''] None
       = Inr ''unknown''"
proof -
  let ?hdrs = "[''x-forwarded-for'' \<mapsto> ''1.2.3.4'', ''x-real-ip'' \<mapsto> ''8.8.8.8'']"
  let ?a = "\<lparr>host = ''203.0.113.5'', port = 443\<rparr>"
  let ?r = "\<lparr>client = Some ?a,
         headers = [(''x-forwarded-for'', ''1.2.3.4''), (''x-real-ip'', ''8.8.8.8'')]\<rparr>"
  have h1: "effective_proxy_count \<lparr>trusted_proxy_count = 5\<rparr> (Some 0) = 0"
    by (simp add: effective_proxy_count_def)
  have h2: "trusted_proxy_count \<lparr>trusted_proxy_count = 0\<rparr> = 0 \<and> client ?r = Some ?a \<and>
      host ?a \<noteq> []"
    by simp
  have c1: "extract_ip_from_headers \<lparr>trusted_proxy_count = 5\<rparr> ?hdrs (Some 0) = Inr ''unknown''"
    by (rule header_only_zero_trust_unknown [THEN conjunct1, rule_format, OF h1])
  have "get_client_ip \<lparr>trusted_proxy_count = 0\<rparr> ?r = Inr (host ?a) \<and>
      extract_ip_from_headers \<lparr>trusted_proxy_count = 0\<rparr> ?hdrs None = Inr ''unknown''"
    by (rule header_only_zero_trust_unknown [THEN conjunct2, rule_format, OF h2])
  then have c2: "get_client_ip \<lparr>trusted_proxy_count = 0\<rparr> ?r = Inr ''203.0.113.5'' \<and>
      extract_ip_from_headers \<lparr>trusted_proxy_count = 0\<rparr> ?hdrs None = Inr ''unknown''"
    by simp
  from h1 c1 c2 show ?thesis by blast
qed

text \<open>
  Claim C9. \<^verbatim>\<open>extract_ip_from_headers\<close> reads its mapping under the two lowercase keys
  \<^verbatim>\<open>"x-forwarded-for"\<close> and \<^verbatim>\<open>"x-real-ip"\<close> and under no other: two mappings that
  agree on these keys give the same result, and with a trust depth \<open>N > 0\<close> a mapping
  with no entry under them, for instance one that stores the headers as
  \<^verbatim>\<open>"X-Forwarded-For"\<close> and \<^verbatim>\<open>"X-Real-IP"\<close>, gives \<^verbatim>\<open>"unknown"\<close>. The request
  variant differs: its lookups of \<^verbatim>\<open>"X-Forwarded-For"\<close> and \<^verbatim>\<open>"X-Real-IP"\<close> go through
  \<^const>\<open>headers_get\<close>, which finds the lowercased names.
\<close>

theorem header_mapping_keys_case_sensitive:
  "(hdrs ''x-forwarded-for'' = hdrs' ''x-forwarded-for'' \<and>
    hdrs ''x-real-ip'' = hdrs' ''x-real-ip'' \<longrightarrow>
      extract_ip_from_headers cfg hdrs arg = extract_ip_from_headers cfg hdrs' arg)
   \<and> (0 < effective_proxy_count cfg arg \<and>
       hdrs ''x-forwarded-for'' = None \<and> hdrs ''x-real-ip'' = None \<longrightarrow>
         extract_ip_from_headers cfg hdrs arg = Inr ''unknown'')
   \<and> headers_get hs ''X-Forwarded-For'' = map_of hs ''x-forwarded-for''
   \<and> headers_get hs ''X-Real-IP'' = map_of hs ''x-real-ip''"
proof (intro conjI impI)
  assume same: "hdrs ''x-forwarded-for'' = hdrs' ''x-forwarded-for'' \<and>
    hdrs ''x-real-ip'' = hdrs' ''x-real-ip''"
  then have a: "dict_get hdrs ''x-forwarded-for'' [] = dict_get hdrs' ''x-forwarded-for'' []"
    and b: "extract_ip_fallback hdrs = extract_ip_fallback hdrs'"
    by (simp_all add: extract_ip_fallback_def dict_get_def)
  show "extract_ip_from_headers cfg hdrs arg = extract_ip_from_headers cfg hdrs' arg"
    unfolding extract_ip_from_headers_def a b ..
next
  assume "0 < effective_proxy_count cfg arg \<and>
    hdrs ''x-forwarded-for'' = None \<and> hdrs ''x-real-ip'' = None"
  then show "extract_ip_from_headers cfg hdrs arg = Inr ''unknown''"
    by (simp add: extract_ip_from_headers_def extract_ip_fallback_def dict_get_def)
next
  show "headers_get hs ''X-Forwarded-For'' = map_of hs ''x-forwarded-for''"
    by (rule headers_get_forwarded_for)
next
  show "headers_get hs ''X-Real-IP'' = map_of hs ''x-real-ip''"
    by (rule headers_get_real_ip)
qed

theorem header_mapping_keys_case_sensitive_witness:
  "0 < effective_proxy_count \<lparr>trusted_proxy_count = 1\<rparr> None
   \<and> [''X-Forwarded-For'' \<mapsto> ''1.2.3.4'', ''X-Real-IP'' \<mapsto> ''8.8.8.8''] ''x-forwarded-for'' = None
   \<and> [''X-Forwarded-For'' \<mapsto> ''1.2.3.4'', ''X-Real-IP'' \<mapsto> ''8.8.8.8''] ''x-real-ip'' = None
   \<and> extract_ip_from_headers \<lparr>trusted_proxy_count = 1\<rparr>
        [''X-Forwarded-For'' \<mapsto> ''1.2.3.4'', ''X-Real-IP'' \<mapsto> ''8.8.8.8''] None
       = Inr ''unknown''
   \<and> extract_ip_from_headers \<lparr>trusted_proxy_count = 1\<rparr>
        [''X-Forwarded-For'' \<mapsto> ''1.2.3.4'', ''X-Real-IP'' \<mapsto> ''8.8.8.8''] None
       = extract_ip_from_headers \<lparr>trusted_proxy_count = 1\<rparr> Map.empty None"
proof -
  let ?hdrs = "[''X-Forwarded-For'' \<mapsto> ''1.2.3.4'', ''X-Real-IP'' \<mapsto> ''8.8.8.8'']"
  have h: "0 < effective_proxy_count \<lparr>trusted_proxy_count = 1\<rparr> None"
    by (simp add: effective_proxy_count_def)
  have k1: "?hdrs ''x-forwarded-for'' = None" by simp
  have k2: "?hdrs ''x-real-ip'' = None" by simp
  have e: "?hdrs ''x-forwarded-for'' = Map.empty ''x-forwarded-for'' \<and>
      ?hdrs ''x-real-ip'' = Map.empty ''x-real-ip''"
    by simp
  have c1: "extract_ip_from_headers \<lparr>trusted_proxy_count = 1\<rparr> ?hdrs None = Inr ''unknown''"
    by (rule header_mapping_keys_case_sensitive [THEN conjunct2, THEN conjunct1, rule_format,
          OF conjI [OF h conjI [OF k1 k2]]])
  have c2: "extract_ip_from_headers \<lparr>trusted_proxy_count = 1\<rparr> ?hdrs None =
      extract_ip_from_headers \<lparr>trusted_proxy_count = 1\<rparr> Map.empty None"
    by (rule header_mapping_keys_case_sensitive [THEN conjunct1, rule_format, OF e])
  from h k1 k2 c1 c2 show ?thesis by blast
qed

section \<open>A blank \<^verbatim>\<open>X-Real-IP\<close>\<close>

text \<open>
  Claim C3 says that an \<^verbatim>\<open>X-Real-IP\<close> value made of whitespace only is skipped, the
  resolver going on to the peer address (or to \<^verbatim>\<open>"unknown"\<close> in the header-only
  variant). The code tests \<^verbatim>\<open>if real_ip:\<close> before trimming and returns
  \<^verbatim>\<open>real_ip.strip()\<close>: with trust depth 1, no \<^verbatim>\<open>X-Forwarded-For\<close>, an \<^verbatim>\<open>X-Real-IP\<close>
  of three spaces and the peer \<^verbatim>\<open>203.0.113.5\<close>, both resolvers return the empty string.
  So does \<^verbatim>\<open>get_client_ip\<close> for an \<^verbatim>\<open>X-Real-IP\<close> of the single byte \<^verbatim>\<open>0xA0\<close>, a
  no-break space once decoded as latin-1.
\<close>

theorem blank_real_ip_returns_empty_string:
  "get_client_ip \<lparr>trusted_proxy_count = 1\<rparr>
     \<lparr>client = Some \<lparr>host = ''203.0.113.5'', port = 443\<rparr>,
      headers = [(''x-real-ip'', ''   '')]\<rparr> = Inr ''''
   \<and> get_client_ip \<lparr>trusted_proxy_count = 1\<rparr>
        \<lparr>client = Some \<lparr>host = ''203.0.113.5'', port = 443\<rparr>,
         headers = [(''x-real-ip'', [CHR 0xA0])]\<rparr> = Inr ''''
   \<and> extract_ip_from_headers \<lparr>trusted_proxy_count = 1\<rparr> [''x-real-ip'' \<mapsto> ''   ''] None
       = Inr ''''"
  by code_simp

section \<open>The proxy-chain parser\<close>


text \<open>
  Claim C7. The parsing step of the code does what the specification says of the
  proxy-chain parser: it equals \<^const>\<open>proxy_chain_parser_spec\<close> (split on commas, trim
  each piece, drop the pieces that are empty after trimming, keep the order), so every
  entry is non-empty, starts and ends with a character that is not whitespace and
  holds no comma. A header of whitespace only parses to the empty chain, and with a
  trust depth above 0 an absent header and a whitespace-only one are treated alike:
  the resolvers go on to the next source. The string \<^verbatim>\<open>"1.2.3.4, , 10.0.0.1"\<close> parses
  to the two entries \<^verbatim>\<open>1.2.3.4\<close> and \<^verbatim>\<open>10.0.0.1\<close>; the filtering comes before the
  length test and the indexing, since with trust depth 1 both resolvers return
  \<^verbatim>\<open>1.2.3.4\<close> there (index \<open>-2\<close> of the two entries) and not the blank middle piece.
\<close>

theorem proxy_chain_parser_refines:
  "parse_forwarded_for raw = proxy_chain_parser_spec raw
   \<and> (\<forall>ip \<in> set (parse_forwarded_for raw).
        ip \<noteq> [] \<and> \<not> str_isspace (hd ip) \<and> \<not> str_isspace (last ip) \<and> CHR '','' \<notin> set ip)
   \<and> ((\<forall>c \<in> set raw. str_isspace c) \<longrightarrow> parse_forwarded_for raw = [])
   \<and> (0 < trusted_proxy_count cfg \<and>
       (headers_get (headers request) ''X-Forwarded-For'' = None \<or>
        headers_get (headers request) ''X-Forwarded-For'' = Some raw \<and>
        (\<forall>c \<in> set raw. str_isspace c)) \<longrightarrow>
         get_client_ip cfg request = get_client_ip_fallback request)
   \<and> (0 < effective_proxy_count cfg arg \<and>
       (hdrs ''x-forwarded-for'' = None \<or>
        hdrs ''x-forwarded-for'' = Some raw \<and> (\<forall>c \<in> set raw. str_isspace c)) \<longrightarrow>
         extract_ip_from_headers cfg hdrs arg = extract_ip_fallback hdrs)
   \<and> parse_forwarded_for ''1.2.3.4, , 10.0.0.1'' = [''1.2.3.4'', ''10.0.0.1'']
   \<and> get_client_ip \<lparr>trusted_proxy_count = 1\<rparr>
        \<lparr>client = None, headers = [(''x-forwarded-for'', ''1.2.3.4, , 10.0.0.1'')]\<rparr>
       = Inr ''1.2.3.4''
   \<and> extract_ip_from_headers \<lparr>trusted_proxy_count = 1\<rparr>
        [''x-forwarded-for'' \<mapsto> ''1.2.3.4, , 10.0.0.1''] None
       = Inr ''1.2.3.4''"
proof (intro conjI impI ballI)
  show "parse_forwarded_for raw = proxy_chain_parser_spec raw"
    by (rule parse_forwarded_for_refines)
next
  fix ip assume "ip \<in> set (parse_forwarded_for raw)"
  then show "ip \<noteq> []" and "\<not> str_isspace (hd ip)" and "\<not> str_isspace (last ip)"
    and "CHR '','' \<notin> set ip"
    using parse_forwarded_for_trimmed [of ip raw] by simp_all
next
  assume "\<forall>c \<in> set raw. str_isspace c"
  then show "parse_forwarded_for raw = []" by (rule parse_forwarded_for_blank)
next
  assume a: "0 < trusted_proxy_count cfg \<and>
    (headers_get (headers request) ''X-Forwarded-For'' = None \<or>
     headers_get (headers request) ''X-Forwarded-For'' = Some raw \<and>
     (\<forall>c \<in> set raw. str_isspace c))"
  then have "headers_get (headers request) ''X-Forwarded-For'' = None \<or>
      (\<exists>v. headers_get (headers request) ''X-Forwarded-For'' = Some v \<and>
           parse_forwarded_for v = [])"
    using parse_forwarded_for_blank [of raw] by blast
  with a show "get_client_ip cfg request = get_client_ip_fallback request"
    by (intro get_client_ip_no_chain) simp_all
next
  assume a: "0 < effective_proxy_count cfg arg \<and>
    (hdrs ''x-forwarded-for'' = None \<or>
     hdrs ''x-forwarded-for'' = Some raw \<and> (\<forall>c \<in> set raw. str_isspace c))"
  then have "hdrs ''x-forwarded-for'' = None \<or>
      (\<exists>v. hdrs ''x-forwarded-for'' = Some v \<and> parse_forwarded_for v = [])"
    using parse_forwarded_for_blank [of raw] by blast
  with a show "extract_ip_from_headers cfg hdrs arg = extract_ip_fallback hdrs"
    by (intro extract_ip_no_chain) simp_all
next
  show "parse_forwarded_for ''1.2.3.4, , 10.0.0.1'' = [''1.2.3.4'', ''10.0.0.1'']"
    by code_simp
next
  show "get_client_ip \<lparr>trusted_proxy_count = 1\<rparr>
        \<lparr>client = None, headers = [(''x-forwarded-for'', ''1.2.3.4, , 10.0.0.1'')]\<rparr>
       = Inr ''1.2.3.4''"
    by code_simp
next
  show "extract_ip_from_headers \<lparr>trusted_proxy_count = 1\<rparr>
        [''x-forwarded-for'' \<mapsto> ''1.2.3.4, , 10.0.0.1''] None
       = Inr ''1.2.3.4''"
    by code_simp
qed


theorem proxy_chain_parser_refines_witness:
  "parse_forwarded_for '' a,, b '' = proxy_chain_parser_spec '' a,, b ''
   \<and> ''b'' \<in> set (parse_forwarded_for '' a,, b '')
   \<and> ''b'' \<noteq> [] \<and> \<not> str_isspace (hd ''b'') \<and> \<not> str_isspace (last ''b'')
   \<and> CHR '','' \<notin> set ''b''
   \<and> str_isspace CHR '' ''
   \<and> parse_forwarded_for ''  '' = []
   \<and> 0 < trusted_proxy_count \<lparr>trusted_proxy_count = 2\<rparr>
   \<and> get_client_ip \<lparr>trusted_proxy_count = 2\<rparr>
        \<lparr>client = None, headers = [(''x-forwarded-for'', ''  '')]\<rparr>
       = get_client_ip_fallback \<lparr>client = None, headers = [(''x-forwarded-for'', ''  '')]\<rparr>
   \<and> 0 < effective_proxy_count \<lparr>trusted_proxy_count = 2\<rparr> None
   \<and> extract_ip_from_headers \<lparr>trusted_proxy_count = 2\<rparr> Map.empty None
       = extract_ip_fallback Map.empty"
proof -
  let ?r = "\<lparr>client = None, headers = [(''x-forwarded-for'', ''  '')]\<rparr>"
  note t = proxy_chain_parser_refines [where raw = "'' a,, b ''"]
  note u = proxy_chain_parser_refines [where raw = "''  ''"
      and cfg = "\<lparr>trusted_proxy_count = 2\<rparr>" and request = ?r
      and arg = None and hdrs = Map.empty]
  have c1: "parse_forwarded_for '' a,, b '' = proxy_chain_parser_spec '' a,, b ''"
    by (rule t [THEN conjunct1])
  have m: "''b'' \<in> set (parse_forwarded_for '' a,, b '')" by code_simp
  have c2: "''b'' \<noteq> [] \<and> \<not> str_isspace (hd ''b'') \<and> \<not> str_isspace (last ''b'')
      \<and> CHR '','' \<notin> set ''b''"
    by (rule t [THEN conjunct2, THEN conjunct1, THEN bspec, OF m])
  have sp: "str_isspace CHR '' ''" by (simp add: str_isspace_def)
  then have w: "\<forall>c \<in> set ''  ''. str_isspace c" by simp
  have c3: "parse_forwarded_for ''  '' = []"
    by (rule u [THEN conjunct2, THEN conjunct2, THEN conjunct1, THEN mp, OF w])
  have h4: "0 < trusted_proxy_count \<lparr>trusted_proxy_count = 2\<rparr>" by simp
  have g: "headers_get (headers ?r) ''X-Forwarded-For'' = Some ''  ''"
    by (simp add: headers_get_forwarded_for)
  have c4: "get_client_ip \<lparr>trusted_proxy_count = 2\<rparr> ?r = get_client_ip_fallback ?r"
    by (rule u [THEN conjunct2, THEN conjunct2, THEN conjunct2, THEN conjunct1, THEN mp,
          OF conjI [OF h4 disjI2 [OF conjI [OF g w]]]])
  have h5: "0 < effective_proxy_count \<lparr>trusted_proxy_count = 2\<rparr> None"
    by (simp add: effective_proxy_count_def)
  have e: "(Map.empty :: string \<rightharpoonup> string) ''x-forwarded-for'' = None" by simp
  have c5: "extract_ip_from_headers \<lparr>trusted_proxy_count = 2\<rparr> Map.empty None =
      extract_ip_fallback Map.empty"
    by (rule u [THEN conjunct2, THEN conjunct2, THEN conjunct2, THEN conjunct2,
          THEN conjunct1, THEN mp, OF conjI [OF h5 disjI1 [OF e]]])
  from c1 m c2 sp c3 h4 c4 h5 c5 show ?thesis by blast
qed

end
